theory Spec2Isabelle
  imports Main
begin

section \<open>Data model of exportscript.py\<close>

text \<open>
  A row of the join query, as the dictionary cursor returns it: one key per selected
  column. \<open>connection_id\<close> is the primary key of the driving table and is always an
  integer; every other column can be SQL NULL (Python \<open>None\<close>), the joined ones because
  the joins are LEFT JOINs. The row fields carry the prefix \<open>row_\<close> where the same key
  also names a field of the output objects.
\<close>

record row =
  row_connection_id :: int
  row_name :: "string option"
  row_protocol :: "string option"
  parameter_name :: "string option"
  parameter_value :: "string option"
  attribute_name :: "string option"
  attribute_value :: "string option"
  connection_group_id :: "int option"
  row_group_name :: "string option"
  entity_name :: "string option"
  entity_type :: "string option"

text \<open>
  The connection dictionary built at lines 121-129. \<open>parameters\<close> and \<open>attributes\<close> are
  Python dictionaries (insertion ordered), kept as association lists; their values and
  the members of \<open>users\<close> and \<open>groups\<close> are whatever the row held, \<open>None\<close> included.
\<close>

record connection =
  connection_id :: int
  name :: string
  protocol :: string
  parameters :: "(string \<times> string option) list"
  attributes :: "(string \<times> string option) list"
  users :: "string option list"
  groups :: "string option list"

text \<open>The group dictionary built at lines 111-114.\<close>

record conn_group =
  group_name :: string
  connections :: "connection list"

text \<open>The local \<open>groups\<close>: a dictionary from group identifier to group, insertion ordered.\<close>

type_synonym groups_dict = "(int option \<times> conn_group) list"

text \<open>The document handed to \<open>json.dump\<close> (lines 148-151).\<close>

record export_data =
  export_connections :: "conn_group list"
  dropdown_options :: "(string \<times> string list) list"

section \<open>Python primitives used by the script\<close>

text \<open>\<open>d[k] = v\<close> on an insertion-ordered dictionary: an existing key keeps its place.\<close>

fun dict_set :: "'k \<Rightarrow> 'v \<Rightarrow> ('k \<times> 'v) list \<Rightarrow> ('k \<times> 'v) list" where
  "dict_set k v [] = [(k, v)]"
| "dict_set k v ((k', v') # d) =
     (if k' = k then (k, v) # d else (k', v') # dict_set k v d)"

text \<open>\<open>d[k]\<close> for reading, and the in-place mutation of the object stored under \<open>k\<close>.\<close>

fun dict_get :: "('k \<times> 'v) list \<Rightarrow> 'k \<Rightarrow> 'v option" where
  "dict_get [] k = None"
| "dict_get ((k', v) # d) k = (if k' = k then Some v else dict_get d k)"

fun dict_modify :: "'k \<Rightarrow> ('v \<Rightarrow> 'v) \<Rightarrow> ('k \<times> 'v) list \<Rightarrow> ('k \<times> 'v) list" where
  "dict_modify k f [] = []"
| "dict_modify k f ((k', v) # d) =
     (if k' = k then (k', f v) # d else (k', v) # dict_modify k f d)"

text \<open>
  \<open>x or default\<close> on a nullable string: \<open>None\<close> and the empty string are both falsy.
\<close>

fun or_default :: "string option \<Rightarrow> string \<Rightarrow> string" where
  "or_default None d = d"
| "or_default (Some s) d = (if s = [] then d else s)"

text \<open>Truth value of a nullable string, as in \<open>if row['parameter_name']:\<close>.\<close>

fun truthy :: "string option \<Rightarrow> bool" where
  "truthy None = False"
| "truthy (Some s) = (s \<noteq> [])"

text \<open>Decimal rendering of an integer, as the f-string at line 123 formats it.\<close>

definition digit_char :: "nat \<Rightarrow> char" where
  "digit_char d = char_of (48 + d)"

function str_nat :: "nat \<Rightarrow> string" where
  "str_nat n = (if n < 10 then [digit_char n] else str_nat (n div 10) @ [digit_char (n mod 10)])"
  by pat_completeness auto
termination
  by (relation "measure id") auto

declare str_nat.simps [simp del]

definition str_int :: "int \<Rightarrow> string" where
  "str_int i = (if i < 0 then CHR ''-'' # str_nat (nat (- i)) else str_nat (nat i))"

text \<open>\<open>s.strip(chars)\<close>: leading and trailing characters that occur in \<open>chars\<close> are removed.\<close>

definition strip :: "string \<Rightarrow> string \<Rightarrow> string" where
  "strip chars s =
     rev (dropWhile (\<lambda>c. c \<in> set chars) (rev (dropWhile (\<lambda>c. c \<in> set chars) s)))"

text \<open>\<open>s.replace(c, "")\<close> for a one-character \<open>c\<close>: every occurrence is deleted.\<close>

definition delete_char :: "char \<Rightarrow> string \<Rightarrow> string" where
  "delete_char c s = filter (\<lambda>x. x \<noteq> c) s"

text \<open>
  \<open>s.split(c)\<close> for a one-character separator: always at least one piece, empty pieces
  kept. The result of the recursive call is never empty, so the first branch of the
  \<open>case\<close> is there for completeness only.
\<close>

fun split :: "char \<Rightarrow> string \<Rightarrow> string list" where
  "split c [] = [[]]"
| "split c (x # xs) =
     (if x = c then [] # split c xs
      else (case split c xs of [] \<Rightarrow> [[x]] | w # ws \<Rightarrow> (x # w) # ws))"

section \<open>Enum metadata: \<open>fetch_dropdown_options\<close>\<close>

text \<open>Line 74: \<open>column_type.strip("enum()").replace("'", "").split(",")\<close>.\<close>

definition parse_enum :: "string \<Rightarrow> string list" where
  "parse_enum column_type =
     split CHR '','' (delete_char (CHR 0x27) (strip ''enum()'' column_type))"

text \<open>
  The loop of lines 70-75 over the fetched \<open>(COLUMN_NAME, COLUMN_TYPE)\<close> pairs, from a
  given dictionary on.
\<close>

fun collect_options ::
  "(string \<times> string list) list \<Rightarrow> (string \<times> string) list \<Rightarrow> (string \<times> string list) list" where
  "collect_options opts [] = opts"
| "collect_options opts ((column_name, column_type) # enum_fields) =
     collect_options (dict_set column_name (parse_enum column_type) opts) enum_fields"

definition fetch_dropdown_options :: "(string \<times> string) list \<Rightarrow> (string \<times> string list) list" where
  "fetch_dropdown_options enum_fields = collect_options [] enum_fields"

section \<open>Row aggregation: the loop of \<open>export_to_json\<close>\<close>

text \<open>Lines 111-114: the group created for a group identifier not seen before.\<close>

definition new_group :: "row \<Rightarrow> conn_group" where
  "new_group r =
     \<lparr>group_name = or_default (row_group_name r) ''ROOT'', connections = []\<rparr>"

text \<open>Lines 121-129: the connection created when the group has none with this identifier.\<close>

definition new_connection :: "row \<Rightarrow> connection" where
  "new_connection r =
     \<lparr>connection_id = row_connection_id r,
      name = or_default (row_name r) (''Unnamed Connection '' @ str_int (row_connection_id r)),
      protocol = or_default (row_protocol r) ''ssh'',
      parameters = [],
      attributes = [],
      users = [],
      groups = []\<rparr>"

text \<open>Lines 133-134.\<close>

definition add_parameter :: "row \<Rightarrow> connection \<Rightarrow> connection" where
  "add_parameter r c =
     (case parameter_name r of
        None \<Rightarrow> c
      | Some n \<Rightarrow>
          if n = [] then c
          else c\<lparr>parameters := dict_set n (parameter_value r) (parameters c)\<rparr>)"

text \<open>Lines 137-138.\<close>

definition add_attribute :: "row \<Rightarrow> connection \<Rightarrow> connection" where
  "add_attribute r c =
     (case attribute_name r of
        None \<Rightarrow> c
      | Some n \<Rightarrow>
          if n = [] then c
          else c\<lparr>attributes := dict_set n (attribute_value r) (attributes c)\<rparr>)"

text \<open>Lines 141-142.\<close>

definition add_user :: "row \<Rightarrow> connection \<Rightarrow> connection" where
  "add_user r c =
     (if entity_type r = Some ''USER'' \<and> entity_name r \<notin> set (users c)
      then c\<lparr>users := users c @ [entity_name r]\<rparr> else c)"

text \<open>Lines 145-146.\<close>

definition add_group :: "row \<Rightarrow> connection \<Rightarrow> connection" where
  "add_group r c =
     (if entity_type r = Some ''USER_GROUP'' \<and> entity_name r \<notin> set (groups c)
      then c\<lparr>groups := groups c @ [entity_name r]\<rparr> else c)"

text \<open>Lines 132-146: what one row does to the connection object it was resolved to.\<close>

definition apply_row :: "row \<Rightarrow> connection \<Rightarrow> connection" where
  "apply_row r c = add_group r (add_user r (add_attribute r (add_parameter r c)))"

text \<open>
  The object is mutated where it sits in the list: the first one with the identifier,
  which is the one \<open>next(...)\<close> returns.
\<close>

fun update_first :: "('a \<Rightarrow> bool) \<Rightarrow> ('a \<Rightarrow> 'a) \<Rightarrow> 'a list \<Rightarrow> 'a list" where
  "update_first p f [] = []"
| "update_first p f (x # xs) = (if p x then f x # xs else x # update_first p f xs)"

text \<open>
  Lines 116-146 on the connection list of the row's group: look the connection up by
  identifier, append a new one when there is none, then apply the row to it.
\<close>

definition upsert_connection :: "row \<Rightarrow> connection list \<Rightarrow> connection list" where
  "upsert_connection r conns =
     (let conn_id = row_connection_id r in
      case find (\<lambda>c. connection_id c = conn_id) conns of
        None \<Rightarrow> conns @ [apply_row r (new_connection r)]
      | Some c \<Rightarrow> update_first (\<lambda>c. connection_id c = conn_id) (apply_row r) conns)"

text \<open>Lines 107-146: the body of the loop for one row.\<close>

definition process_row :: "groups_dict \<Rightarrow> row \<Rightarrow> groups_dict" where
  "process_row grps r =
     (let group_id = connection_group_id r;
          grps1 = (if group_id \<in> set (map fst grps) then grps
                   else grps @ [(group_id, new_group r)])
      in dict_modify group_id
           (\<lambda>g. g\<lparr>connections := upsert_connection r (connections g)\<rparr>) grps1)"

text \<open>Lines 106-146: the loop, from a given dictionary on.\<close>

fun aggregate_rows :: "groups_dict \<Rightarrow> row list \<Rightarrow> groups_dict" where
  "aggregate_rows grps [] = grps"
| "aggregate_rows grps (r # rows) = aggregate_rows (process_row grps r) rows"

text \<open>Line 105 and the loop: \<open>groups\<close> starts empty.\<close>

definition aggregate :: "row list \<Rightarrow> groups_dict" where
  "aggregate rows = aggregate_rows [] rows"

text \<open>
  \<open>export_to_json\<close>, given what the two \<open>fetchall\<close> calls returned. \<open>None\<close> is the early
  return of lines 101-103: nothing is written. \<open>Some d\<close> is the document \<open>d\<close> written to
  export.json; \<open>list(groups.values())\<close> drops the group identifiers.
\<close>

definition export_to_json :: "(string \<times> string) list \<Rightarrow> row list \<Rightarrow> export_data option" where
  "export_to_json enum_fields rows =
     (let opts = fetch_dropdown_options enum_fields in
      if rows = [] then None
      else Some \<lparr>export_connections = map snd (aggregate rows), dropdown_options = opts\<rparr>)"

section \<open>Reading the result\<close>

text \<open>
  The order of first occurrence: each element once, placed where it is first seen.
\<close>

fun first_seen :: "'a list \<Rightarrow> 'a list" where
  "first_seen [] = []"
| "first_seen (x # xs) = x # filter (\<lambda>y. y \<noteq> x) (first_seen xs)"

text \<open>
  \<open>groups[g]['connections']\<close> when \<open>g\<close> is a key, the empty list otherwise; and the
  connection that the generator expression of lines 116-119 finds in it.
\<close>

definition group_connections :: "groups_dict \<Rightarrow> int option \<Rightarrow> connection list" where
  "group_connections grps g =
     (case dict_get grps g of None \<Rightarrow> [] | Some grp \<Rightarrow> connections grp)"

definition lookup_connection :: "groups_dict \<Rightarrow> int option \<Rightarrow> int \<Rightarrow> connection option" where
  "lookup_connection grps g c = find (\<lambda>x. connection_id x = c) (group_connections grps g)"

text \<open>
  The connection that a list of rows of one connection builds: created from the first
  row, then every row, the first included, applied in order.
\<close>

definition connection_of_rows :: "row list \<Rightarrow> connection option" where
  "connection_of_rows rs =
     (case rs of [] \<Rightarrow> None | r0 # _ \<Rightarrow> Some (fold apply_row rs (new_connection r0)))"

text \<open>The rows that carry connection \<open>c\<close> together with group \<open>g\<close>, in input order.\<close>

definition rows_of :: "int option \<Rightarrow> int \<Rightarrow> row list \<Rightarrow> row list" where
  "rows_of g c rows = filter (\<lambda>r. connection_group_id r = g \<and> row_connection_id r = c) rows"

text \<open>
  One entry per connection object of the dictionary, in output order: the key of its
  group and its connection identifier.
\<close>

definition object_keys :: "groups_dict \<Rightarrow> (int option \<times> int) list" where
  "object_keys grps =
     concat (map (\<lambda>(g, grp). map (\<lambda>x. (g, connection_id x)) (connections grp)) grps)"

text \<open>
  The \<open>users\<close> and \<open>groups\<close> lists of the connection \<open>c\<close> of group \<open>g\<close>; empty while the
  connection does not exist, as it is created with empty lists.
\<close>

definition users_of :: "groups_dict \<Rightarrow> int option \<Rightarrow> int \<Rightarrow> string option list" where
  "users_of grps g c = (case lookup_connection grps g c of None \<Rightarrow> [] | Some x \<Rightarrow> users x)"

definition groups_of :: "groups_dict \<Rightarrow> int option \<Rightarrow> int \<Rightarrow> string option list" where
  "groups_of grps g c = (case lookup_connection grps g c of None \<Rightarrow> [] | Some x \<Rightarrow> groups x)"

text \<open>The row with each empty string among the five tested columns replaced by NULL.\<close>

definition blank_to_null :: "row \<Rightarrow> row" where
  "blank_to_null r =
     r\<lparr>row_name := (if row_name r = Some [] then None else row_name r),
       row_protocol := (if row_protocol r = Some [] then None else row_protocol r),
       row_group_name := (if row_group_name r = Some [] then None else row_group_name r),
       parameter_name := (if parameter_name r = Some [] then None else parameter_name r),
       attribute_name := (if attribute_name r = Some [] then None else attribute_name r)\<rparr>"

section \<open>Example rows\<close>

text \<open>
  A row of connection \<open>c\<close> in group \<open>g\<close> with every nullable column NULL; the examples
  below fill in the columns they are about.
\<close>

definition bare_row :: "int option \<Rightarrow> int \<Rightarrow> row" where
  "bare_row g c =
     \<lparr>row_connection_id = c, row_name = None, row_protocol = None,
      parameter_name = None, parameter_value = None,
      attribute_name = None, attribute_value = None,
      connection_group_id = g, row_group_name = None,
      entity_name = None, entity_type = None\<rparr>"

section \<open>Enum type declarations\<close>

text \<open>
  The text of an enum column type as the metadata query returns it: the literals in
  declaration order, each in single quotes, separated by commas, inside \<open>enum(...)\<close>.
\<close>

definition quote :: "string \<Rightarrow> string" where
  "quote l = CHR 0x27 # l @ [CHR 0x27]"

fun join_quoted :: "string list \<Rightarrow> string" where
  "join_quoted [] = []"
| "join_quoted [l] = quote l"
| "join_quoted (l # l' # ls) = quote l @ CHR '','' # join_quoted (l' # ls)"

definition enum_declaration :: "string list \<Rightarrow> string" where
  "enum_declaration lits = ''enum('' @ join_quoted lits @ '')''"

text \<open>The literals separated by commas, without quotes.\<close>

fun join_commas :: "string list \<Rightarrow> string" where
  "join_commas [] = []"
| "join_commas [l] = l"
| "join_commas (l # l' # ls) = l @ CHR '','' # join_commas (l' # ls)"

section \<open>The document as JSON\<close>

text \<open>
  What \<open>json.dump\<close> writes for the values the script builds: a dictionary becomes an
  object with its keys in insertion order, a list an array, an integer a number, a
  string a string and \<open>None\<close> the literal null.
\<close>

datatype json = JNull | JInt int | JString string | JArray "json list"
  | JObject "(string \<times> json) list"

fun nullable_json :: "string option \<Rightarrow> json" where
  "nullable_json None = JNull"
| "nullable_json (Some s) = JString s"

definition connection_json :: "connection \<Rightarrow> json" where
  "connection_json c =
     JObject
      [(''connection_id'', JInt (connection_id c)),
       (''name'', JString (name c)),
       (''protocol'', JString (protocol c)),
       (''parameters'', JObject (map (\<lambda>(k, v). (k, nullable_json v)) (parameters c))),
       (''attributes'', JObject (map (\<lambda>(k, v). (k, nullable_json v)) (attributes c))),
       (''users'', JArray (map nullable_json (users c))),
       (''groups'', JArray (map nullable_json (groups c)))]"

definition group_json :: "conn_group \<Rightarrow> json" where
  "group_json g =
     JObject
      [(''group_name'', JString (group_name g)),
       (''connections'', JArray (map connection_json (connections g)))]"

definition document_json :: "export_data \<Rightarrow> json" where
  "document_json d =
     JObject
      [(''connections'', JArray (map group_json (export_connections d))),
       (''dropdown_options'',
          JObject (map (\<lambda>(k, opts). (k, JArray (map JString opts))) (dropdown_options d)))]"

text \<open>The values that are JSON strings.\<close>

fun is_string :: "json \<Rightarrow> bool" where
  "is_string (JString s) = True"
| "is_string _ = False"

text \<open>
  A row whose stored values are present: a value beside a non-empty parameter or
  attribute name, a name beside an entity type that the loop acts on.
\<close>

definition values_present :: "row \<Rightarrow> bool" where
  "values_present r \<longleftrightarrow>
     (truthy (parameter_name r) \<longrightarrow> parameter_value r \<noteq> None) \<and>
     (truthy (attribute_name r) \<longrightarrow> attribute_value r \<noteq> None) \<and>
     (entity_type r = Some ''USER'' \<or> entity_type r = Some ''USER_GROUP''
        \<longrightarrow> entity_name r \<noteq> None)"

text \<open>A connection object without a null among its stored values.\<close>

definition no_null :: "connection \<Rightarrow> bool" where
  "no_null c \<longleftrightarrow>
     None \<notin> snd ` set (parameters c) \<and> None \<notin> snd ` set (attributes c)
     \<and> None \<notin> set (users c) \<and> None \<notin> set (groups c)"

section \<open>Lemmas on the dictionaries and the loop\<close>

lemma set_first_seen: "set (first_seen xs) = set xs"
  by (induction xs) auto

lemma distinct_first_seen: "distinct (first_seen xs)"
  by (induction xs) (auto simp: set_first_seen)

lemma first_seen_snoc:
  "first_seen (xs @ [x]) = (if x \<in> set xs then first_seen xs else first_seen xs @ [x])"
  by (induction xs) auto

lemma aggregate_rows_append:
  "aggregate_rows grps (xs @ ys) = aggregate_rows (aggregate_rows grps xs) ys"
  by (induction xs arbitrary: grps) auto

lemma aggregate_snoc: "aggregate (rows @ [r]) = process_row (aggregate rows) r"
  by (simp add: aggregate_def aggregate_rows_append)

lemma keys_dict_modify: "map fst (dict_modify k f d) = map fst d"
  by (induction d) auto

lemma keys_process_row:
  "map fst (process_row grps r) =
     (if connection_group_id r \<in> set (map fst grps) then map fst grps
      else map fst grps @ [connection_group_id r])"
  by (simp add: process_row_def Let_def keys_dict_modify)

lemma keys_aggregate: "map fst (aggregate rows) = first_seen (map connection_group_id rows)"
proof (induction rows rule: rev_induct)
  case Nil
  show ?case by (simp add: aggregate_def)
next
  case (snoc r rows)
  have "set (map fst (aggregate rows)) = connection_group_id ` set rows"
    by (simp add: snoc set_first_seen)
  then show ?case
    by (simp add: aggregate_snoc keys_process_row snoc first_seen_snoc)
qed

lemma dict_get_None: "dict_get d k = None \<longleftrightarrow> k \<notin> set (map fst d)"
  by (induction d) (auto split: if_splits)

lemma dict_get_append:
  "dict_get (d @ e) k = (case dict_get d k of None \<Rightarrow> dict_get e k | Some v \<Rightarrow> Some v)"
  by (induction d) auto

lemma dict_get_modify:
  "dict_get (dict_modify k f d) k' =
     (if k' = k then map_option f (dict_get d k) else dict_get d k')"
  by (induction d) auto

lemma dict_get_distinct:
  "distinct (map fst d) \<Longrightarrow> (k, v) \<in> set d \<Longrightarrow> dict_get d k = Some v"
proof (induction d)
  case Nil
  then show ?case by simp
next
  case (Cons p d)
  obtain k' v' where p: "p = (k', v')" by (cases p)
  show ?case
  proof (cases "k' = k")
    case True
    with Cons.prems p have "(k, v) \<notin> set d" by (auto simp: image_iff)
    with Cons.prems p True show ?thesis by simp
  next
    case False
    with Cons p show ?thesis by simp
  qed
qed

lemma dict_get_mem: "dict_get d k = Some v \<Longrightarrow> (k, v) \<in> set d"
  by (induction d) (auto split: if_splits)

lemma group_connections_process_row:
  "group_connections (process_row grps r) g =
     (if g = connection_group_id r then upsert_connection r (group_connections grps g)
      else group_connections grps g)"
proof (cases "connection_group_id r \<in> set (map fst grps)")
  case True
  then obtain grp where "dict_get grps (connection_group_id r) = Some grp"
    using dict_get_None [of grps "connection_group_id r"] by (cases "dict_get grps (connection_group_id r)") auto
  with True show ?thesis
    by (simp add: group_connections_def process_row_def Let_def dict_get_modify)
next
  case False
  then have "dict_get grps (connection_group_id r) = None"
    by (simp add: dict_get_None)
  with False show ?thesis
    by (simp add: group_connections_def process_row_def Let_def dict_get_modify dict_get_append
        new_group_def split: option.splits)
qed

lemma connection_id_apply_row: "connection_id (apply_row r c) = connection_id c"
  by (simp add: apply_row_def add_parameter_def add_attribute_def add_user_def add_group_def
      split: option.splits)

lemma connection_id_new: "connection_id (new_connection r) = row_connection_id r"
  by (simp add: new_connection_def)

lemma find_None_ids: "find (\<lambda>x. connection_id x = c) xs = None \<longleftrightarrow> c \<notin> set (map connection_id xs)"
  by (induction xs) auto

lemma ids_update_first:
  "map connection_id (update_first p (apply_row r) xs) = map connection_id xs"
  by (induction xs) (auto simp: connection_id_apply_row)

lemma ids_upsert:
  "map connection_id (upsert_connection r conns) =
     (if row_connection_id r \<in> set (map connection_id conns) then map connection_id conns
      else map connection_id conns @ [row_connection_id r])"
proof (cases "find (\<lambda>x. connection_id x = row_connection_id r) conns")
  case None
  then show ?thesis
    using find_None_ids [of "row_connection_id r" conns]
    by (simp add: upsert_connection_def connection_id_apply_row connection_id_new)
next
  case (Some a)
  then show ?thesis
    using find_None_ids [of "row_connection_id r" conns]
    by (simp add: upsert_connection_def ids_update_first)
qed

lemma ids_aggregate:
  "map connection_id (group_connections (aggregate rows) g) =
     first_seen (map row_connection_id (filter (\<lambda>r. connection_group_id r = g) rows))"
proof (induction rows rule: rev_induct)
  case Nil
  show ?case by (simp add: aggregate_def group_connections_def)
next
  case (snoc r rows)
  have "set (map connection_id (group_connections (aggregate rows) g)) =
      row_connection_id ` {x \<in> set rows. connection_group_id x = g}"
    by (simp only: snoc set_first_seen) simp
  then have mem: "connection_id ` set (group_connections (aggregate rows) g) =
      row_connection_id ` {x \<in> set rows. connection_group_id x = g}"
    by simp
  show ?case
  proof (cases "g = connection_group_id r")
    case True
    show ?thesis
      using snoc mem unfolding True
      by (simp add: aggregate_snoc group_connections_process_row ids_upsert first_seen_snoc
          set_first_seen)
  next
    case False
    then show ?thesis
      by (simp add: aggregate_snoc group_connections_process_row snoc)
  qed
qed

lemma connection_of_rows_snoc:
  "connection_of_rows (rs @ [r]) =
     Some (apply_row r (case connection_of_rows rs of None \<Rightarrow> new_connection r | Some x \<Rightarrow> x))"
  by (cases rs) (simp_all add: connection_of_rows_def)

lemma find_update_first:
  "find (\<lambda>x. connection_id x = c') (update_first (\<lambda>x. connection_id x = c) (apply_row r) xs) =
     (if c' = c then map_option (apply_row r) (find (\<lambda>x. connection_id x = c) xs)
      else find (\<lambda>x. connection_id x = c') xs)"
  by (induction xs) (auto simp: connection_id_apply_row)

lemma find_append:
  "find P (xs @ ys) = (case find P xs of None \<Rightarrow> find P ys | Some x \<Rightarrow> Some x)"
  by (induction xs) auto

lemma find_upsert:
  "find (\<lambda>x. connection_id x = c) (upsert_connection r conns) =
     (if c = row_connection_id r
      then Some (apply_row r (case find (\<lambda>x. connection_id x = c) conns of
                                None \<Rightarrow> new_connection r | Some x \<Rightarrow> x))
      else find (\<lambda>x. connection_id x = c) conns)"
  by (cases "find (\<lambda>x. connection_id x = row_connection_id r) conns")
    (auto simp: upsert_connection_def find_update_first find_append connection_id_apply_row
      connection_id_new split: option.splits)

lemma lookup_process_row:
  "lookup_connection (process_row grps r) g c =
     (if g = connection_group_id r \<and> c = row_connection_id r
      then Some (apply_row r (case lookup_connection grps g c of
                                None \<Rightarrow> new_connection r | Some x \<Rightarrow> x))
      else lookup_connection grps g c)"
  by (simp add: lookup_connection_def group_connections_process_row find_upsert)

lemma lookup_aggregate:
  "lookup_connection (aggregate rows) g c = connection_of_rows (rows_of g c rows)"
proof (induction rows rule: rev_induct)
  case Nil
  show ?case
    by (simp add: aggregate_def lookup_connection_def group_connections_def rows_of_def
        connection_of_rows_def)
next
  case (snoc r rows)
  show ?case
  proof (cases "g = connection_group_id r \<and> c = row_connection_id r")
    case True
    then have g: "g = connection_group_id r" and c: "c = row_connection_id r" by simp_all
    show ?thesis
      using snoc unfolding g c
      by (simp add: aggregate_snoc lookup_process_row rows_of_def connection_of_rows_snoc)
  next
    case False
    then have "rows_of g c (rows @ [r]) = rows_of g c rows"
      by (auto simp: rows_of_def)
    with False snoc show ?thesis
      by (auto simp: aggregate_snoc lookup_process_row)
  qed
qed

lemma distinct_keys_aggregate: "distinct (map fst (aggregate rows))"
  by (simp add: keys_aggregate distinct_first_seen)

lemma group_in_aggregate:
  assumes "(g, grp) \<in> set (aggregate rows)"
  shows "connections grp = group_connections (aggregate rows) g"
  using dict_get_distinct [OF distinct_keys_aggregate assms]
  by (simp add: group_connections_def)

lemma distinct_ids_aggregate:
  "distinct (map connection_id (group_connections (aggregate rows) g))"
  by (simp add: ids_aggregate distinct_first_seen)

lemma set_ids_aggregate:
  "connection_id ` set (group_connections (aggregate rows) g) =
     row_connection_id ` {r \<in> set rows. connection_group_id r = g}"
  using arg_cong [OF ids_aggregate [of rows g], of set] by (simp add: set_first_seen)

lemma group_connections_empty:
  "g \<notin> set (map fst grps) \<Longrightarrow> group_connections grps g = []"
  using dict_get_None [of grps g] by (simp add: group_connections_def)

lemma set_object_keys:
  "set (object_keys grps) =
     {(g, c). \<exists>grp. (g, grp) \<in> set grps \<and> c \<in> connection_id ` set (connections grp)}"
  by (auto simp: object_keys_def)

lemma set_object_keys_aggregate:
  "set (object_keys (aggregate rows)) =
     (\<lambda>r. (connection_group_id r, row_connection_id r)) ` set rows"
proof -
  have "(g, c) \<in> set (object_keys (aggregate rows)) \<longleftrightarrow>
        (g, c) \<in> (\<lambda>r. (connection_group_id r, row_connection_id r)) ` set rows" for g c
  proof
    assume "(g, c) \<in> set (object_keys (aggregate rows))"
    then obtain grp where grp: "(g, grp) \<in> set (aggregate rows)"
      and c: "c \<in> connection_id ` set (connections grp)"
      by (auto simp: set_object_keys)
    from c have "c \<in> row_connection_id ` {r \<in> set rows. connection_group_id r = g}"
      by (simp only: group_in_aggregate [OF grp] set_ids_aggregate)
    then show "(g, c) \<in> (\<lambda>r. (connection_group_id r, row_connection_id r)) ` set rows"
      by auto
  next
    assume "(g, c) \<in> (\<lambda>r. (connection_group_id r, row_connection_id r)) ` set rows"
    then have c: "c \<in> row_connection_id ` {r \<in> set rows. connection_group_id r = g}"
      and g: "g \<in> set (map fst (aggregate rows))"
      by (auto simp: keys_aggregate set_first_seen)
    from g obtain grp where grp: "(g, grp) \<in> set (aggregate rows)" by auto
    from c have "c \<in> connection_id ` set (connections grp)"
      by (simp only: group_in_aggregate [OF grp] set_ids_aggregate)
    with grp show "(g, c) \<in> set (object_keys (aggregate rows))"
      by (auto simp: set_object_keys)
  qed
  then show ?thesis by auto
qed

lemma fst_object_keys: "fst ` set (object_keys grps) \<subseteq> fst ` set grps"
  by (force simp: set_object_keys)

lemma distinct_object_keys:
  "distinct (map fst grps) \<Longrightarrow>
   \<forall>(g, grp) \<in> set grps. distinct (map connection_id (connections grp)) \<Longrightarrow>
   distinct (object_keys grps)"
proof (induction grps)
  case Nil
  show ?case by (simp add: object_keys_def)
next
  case (Cons p grps)
  obtain g grp where p: "p = (g, grp)" by (cases p)
  have tail: "distinct (object_keys grps)"
    using Cons by simp
  have head: "distinct (map (\<lambda>x. (g, connection_id x)) (connections grp))"
  proof -
    have "distinct (map (Pair g) (map connection_id (connections grp)))"
      using Cons.prems(2) p by (simp add: distinct_map inj_on_def)
    then show ?thesis by (simp add: comp_def)
  qed
  have disj: "set (map (\<lambda>x. (g, connection_id x)) (connections grp)) \<inter> set (object_keys grps) = {}"
    using fst_object_keys [of grps] Cons.prems(1) p by force
  have unfold: "object_keys (p # grps) =
      map (\<lambda>x. (g, connection_id x)) (connections grp) @ object_keys grps"
    by (simp add: object_keys_def p)
  show ?case
    unfolding unfold using head tail disj by (simp only: distinct_append simp_thms)
qed

lemma distinct_object_keys_aggregate: "distinct (object_keys (aggregate rows))"
proof (rule distinct_object_keys [OF distinct_keys_aggregate])
  show "\<forall>(g, grp) \<in> set (aggregate rows). distinct (map connection_id (connections grp))"
    using group_in_aggregate distinct_ids_aggregate by auto
qed

lemma count_list_distinct: "distinct xs \<Longrightarrow> x \<in> set xs \<Longrightarrow> count_list xs x = 1"
  by (induction xs) auto

lemma shape_aggregate:
  "map (\<lambda>(g, grp). map connection_id (connections grp)) (aggregate rows) =
     map (\<lambda>g. first_seen (map row_connection_id (filter (\<lambda>r. connection_group_id r = g) rows)))
       (first_seen (map connection_group_id rows))"
proof -
  have "map (\<lambda>(g, grp). map connection_id (connections grp)) (aggregate rows) =
      map (\<lambda>p. map connection_id (group_connections (aggregate rows) (fst p))) (aggregate rows)"
    by (rule map_cong) (auto simp: group_in_aggregate)
  also have "\<dots> = map (\<lambda>g. map connection_id (group_connections (aggregate rows) g))
      (map fst (aggregate rows))"
    by (simp add: comp_def)
  finally show ?thesis
    by (simp only: ids_aggregate keys_aggregate)
qed

text \<open>The definitions unfolded when the loop is run on concrete rows.\<close>

lemmas eval_defs = aggregate_def process_row_def new_group_def upsert_connection_def
  new_connection_def apply_row_def add_parameter_def add_attribute_def add_user_def
  add_group_def export_to_json_def fetch_dropdown_options_def bare_row_def Let_def

section \<open>Shape of the aggregated output\<close>

text \<open>
  Claim C7 (order preservation). Whenever a document is written, its group list is the
  value list of the loop's dictionary; the keys of that dictionary are the group
  identifiers of the rows in the order of their first occurrence, and the connections
  of each group carry the connection identifiers of that group's rows in the order of
  their first occurrence among those rows.
\<close>

theorem order_preserved:
  assumes "rows \<noteq> []"
  shows "\<exists>d. export_to_json enum_fields rows = Some d
    \<and> export_connections d = map snd (aggregate rows)
    \<and> map fst (aggregate rows) = first_seen (map connection_group_id rows)
    \<and> map (\<lambda>(g, grp). map connection_id (connections grp)) (aggregate rows) =
        map (\<lambda>g. first_seen (map row_connection_id
                    (filter (\<lambda>r. connection_group_id r = g) rows)))
          (first_seen (map connection_group_id rows))"
  using assms by (simp add: export_to_json_def keys_aggregate shape_aggregate)

theorem order_preserved_witness:
  "[bare_row (Some 2) 7, bare_row None 3, bare_row (Some 2) 5, bare_row (Some 2) 7] \<noteq> []
   \<and> map (\<lambda>(g, grp). (g, map connection_id (connections grp)))
        (aggregate [bare_row (Some 2) 7, bare_row None 3, bare_row (Some 2) 5, bare_row (Some 2) 7])
      = [(Some 2, [7, 5]), (None, [3])]"
  using order_preserved [of "[bare_row (Some 2) 7, bare_row None 3, bare_row (Some 2) 5, bare_row (Some 2) 7]" "[]"]
  by (simp add: eval_defs)

text \<open>
  Claim C1 (dedup invariant). If a pair (group identifier, connection identifier) occurs
  in the rows, once or many times, the output holds exactly one connection object for
  it; that object is the one created from the first row with the pair, with every row
  of the pair, in order, applied to it.
\<close>

theorem dedup_invariant:
  assumes "(g, c) \<in> set (map (\<lambda>r. (connection_group_id r, row_connection_id r)) rows)"
  shows "count_list (object_keys (aggregate rows)) (g, c) = 1
    \<and> lookup_connection (aggregate rows) g c = connection_of_rows (rows_of g c rows)"
proof -
  from assms have "(g, c) \<in> set (object_keys (aggregate rows))"
    by (simp add: set_object_keys_aggregate)
  then show ?thesis
    by (simp add: count_list_distinct distinct_object_keys_aggregate lookup_aggregate)
qed

theorem dedup_invariant_witness:
  "(Some 2, 7) \<in> set (map (\<lambda>r. (connection_group_id r, row_connection_id r))
       [bare_row (Some 2) 7, bare_row (Some 2) 7, bare_row None 3, bare_row (Some 2) 7])
   \<and> count_list (object_keys
       (aggregate [bare_row (Some 2) 7, bare_row (Some 2) 7, bare_row None 3, bare_row (Some 2) 7]))
       (Some 2, 7) = 1"
  using dedup_invariant [of "Some 2" 7
      "[bare_row (Some 2) 7, bare_row (Some 2) 7, bare_row None 3, bare_row (Some 2) 7]"]
  by (simp add: bare_row_def)

text \<open>
  Claim C2 says a connection identifier sits under one group only, the first seen one.
  The lookup of lines 116-119 searches the connection list of the row's own group, so
  a connection identifier that arrives with two group identifiers gets an object under
  each: here connection 5 appears under group 1 and again under group 2.
\<close>

theorem first_group_wins_counterexample:
  "export_to_json []
     [bare_row (Some 1) 5\<lparr>row_name := Some ''db'', row_group_name := Some ''lab''\<rparr>,
      bare_row (Some 2) 5\<lparr>row_name := Some ''db'', row_group_name := Some ''office''\<rparr>]
   = Some \<lparr>export_connections =
       [\<lparr>group_name = ''lab'', connections =
          [\<lparr>connection_id = 5, name = ''db'', protocol = ''ssh'', parameters = [],
            attributes = [], users = [], groups = []\<rparr>]\<rparr>,
        \<lparr>group_name = ''office'', connections =
          [\<lparr>connection_id = 5, name = ''db'', protocol = ''ssh'', parameters = [],
            attributes = [], users = [], groups = []\<rparr>]\<rparr>],
      dropdown_options = []\<rparr>"
  by (simp add: eval_defs)

text \<open>
  Claim C2 as the code has it: connection \<open>c\<close> sits under group \<open>g\<close> exactly when some row
  carries \<open>c\<close> together with \<open>g\<close>, and the number of connection objects with identifier
  \<open>c\<close> in the whole output is the number of different group identifiers that the rows
  of \<open>c\<close> carry (one when they agree, as a foreign key makes them).
\<close>

theorem connection_per_group:
  "{g. c \<in> connection_id ` set (group_connections (aggregate rows) g)} =
     connection_group_id ` {r \<in> set rows. row_connection_id r = c}
   \<and> length (filter (\<lambda>k. snd k = c) (object_keys (aggregate rows))) =
     card (connection_group_id ` {r \<in> set rows. row_connection_id r = c})"
proof
  show "{g. c \<in> connection_id ` set (group_connections (aggregate rows) g)} =
     connection_group_id ` {r \<in> set rows. row_connection_id r = c}"
    by (auto simp: set_ids_aggregate)
next
  have "length (filter (\<lambda>k. snd k = c) (object_keys (aggregate rows))) =
      card ({k. snd k = c} \<inter> set (object_keys (aggregate rows)))"
    by (rule distinct_length_filter [OF distinct_object_keys_aggregate])
  also have "{k. snd k = c} \<inter> set (object_keys (aggregate rows)) =
      (\<lambda>g. (g, c)) ` (connection_group_id ` {r \<in> set rows. row_connection_id r = c})"
    by (auto simp: set_object_keys_aggregate)
  also have "card \<dots> = card (connection_group_id ` {r \<in> set rows. row_connection_id r = c})"
    by (rule card_image) (simp add: inj_on_def)
  finally show "length (filter (\<lambda>k. snd k = c) (object_keys (aggregate rows))) =
     card (connection_group_id ` {r \<in> set rows. row_connection_id r = c})" .
qed

section \<open>Empty result\<close>

text \<open>
  Claim C3 says that zero rows still give a document with an empty connection list.
  Lines 101-103 return before anything is built: no document is produced.
\<close>

theorem empty_result_counterexample:
  "export_to_json [] [] = None"
  by (simp add: export_to_json_def)

text \<open>
  Claim C3 as the code has it: on zero rows \<open>export_to_json\<close> returns without an error
  and without a document, whatever the enum metadata is; the loop itself would leave
  the dictionary empty; and zero rows is the only case in which no document is written.
\<close>

theorem empty_result_no_document:
  "export_to_json enum_fields [] = None \<and> aggregate [] = []
   \<and> (export_to_json enum_fields rows = None) = (rows = [])"
  by (simp add: export_to_json_def aggregate_def)

section \<open>What a row does to a connection\<close>

lemma users_apply_row:
  "users (apply_row r c) =
     (if entity_type r = Some ''USER'' \<and> entity_name r \<notin> set (users c)
      then users c @ [entity_name r] else users c)"
  by (simp add: apply_row_def add_parameter_def add_attribute_def add_user_def add_group_def
      split: option.splits)

lemma groups_apply_row:
  "groups (apply_row r c) =
     (if entity_type r = Some ''USER_GROUP'' \<and> entity_name r \<notin> set (groups c)
      then groups c @ [entity_name r] else groups c)"
  by (simp add: apply_row_def add_parameter_def add_attribute_def add_user_def add_group_def
      split: option.splits)

lemma name_apply_row: "name (apply_row r c) = name c"
  by (simp add: apply_row_def add_parameter_def add_attribute_def add_user_def add_group_def
      split: option.splits)

lemma protocol_apply_row: "protocol (apply_row r c) = protocol c"
  by (simp add: apply_row_def add_parameter_def add_attribute_def add_user_def add_group_def
      split: option.splits)

lemma fold_apply_row_invariant:
  assumes "P c0" and "\<And>r c. r \<in> set rs \<Longrightarrow> P c \<Longrightarrow> P (apply_row r c)"
  shows "P (fold apply_row rs c0)"
  using assms by (induction rs arbitrary: c0) auto

lemma find_distinct_ids:
  "distinct (map connection_id xs) \<Longrightarrow> x \<in> set xs \<Longrightarrow>
   find (\<lambda>y. connection_id y = connection_id x) xs = Some x"
  by (induction xs) (auto simp: image_iff)

lemma object_in_aggregate:
  assumes "(g, grp) \<in> set (aggregate rows)" and "x \<in> set (connections grp)"
  obtains r0 rest where "rows_of g (connection_id x) rows = r0 # rest"
    and "x = fold apply_row (r0 # rest) (new_connection r0)"
proof -
  have "x \<in> set (group_connections (aggregate rows) g)"
    using assms by (simp add: group_in_aggregate)
  then have "lookup_connection (aggregate rows) g (connection_id x) = Some x"
    unfolding lookup_connection_def
    by (rule find_distinct_ids [OF distinct_ids_aggregate])
  then have "connection_of_rows (rows_of g (connection_id x) rows) = Some x"
    by (simp add: lookup_aggregate)
  then show ?thesis
    using that by (auto simp: connection_of_rows_def split: list.splits)
qed

text \<open>
  Claim C5 (user/group set invariant). In every document written, every connection
  object has a \<open>users\<close> list and a \<open>groups\<close> list without repetition: the length of each
  is the number of its different members, however many rows named the same entity.
\<close>

theorem users_groups_distinct:
  assumes "export_to_json enum_fields rows = Some d"
  shows "\<forall>grp \<in> set (export_connections d). \<forall>x \<in> set (connections grp).
     length (users x) = card (set (users x)) \<and> length (groups x) = card (set (groups x))"
proof (intro ballI)
  fix grp x
  assume grp: "grp \<in> set (export_connections d)" and x: "x \<in> set (connections grp)"
  from assms grp obtain g where g: "(g, grp) \<in> set (aggregate rows)"
    by (auto simp: export_to_json_def split: if_splits)
  obtain r0 rest where fold: "x = fold apply_row (r0 # rest) (new_connection r0)"
    using object_in_aggregate [OF g x] by blast
  have "distinct (users x) \<and> distinct (groups x)"
    unfolding fold
  proof (rule fold_apply_row_invariant)
    show "distinct (users (new_connection r0)) \<and> distinct (groups (new_connection r0))"
      by (simp add: new_connection_def)
  next
    fix r and c :: connection
    assume "distinct (users c) \<and> distinct (groups c)"
    then show "distinct (users (apply_row r c)) \<and> distinct (groups (apply_row r c))"
      by (simp add: users_apply_row groups_apply_row)
  qed
  then show "length (users x) = card (set (users x)) \<and> length (groups x) = card (set (groups x))"
    by (simp add: distinct_card)
qed

theorem users_groups_distinct_witness:
  "map_option (\<lambda>d. map (\<lambda>grp. map (\<lambda>x. (users x, groups x)) (connections grp))
       (export_connections d))
     (export_to_json []
       [bare_row None 1\<lparr>entity_name := Some ''alice'', entity_type := Some ''USER''\<rparr>,
        bare_row None 1\<lparr>entity_name := Some ''admins'', entity_type := Some ''USER_GROUP''\<rparr>,
        bare_row None 1\<lparr>entity_name := Some ''alice'', entity_type := Some ''USER''\<rparr>,
        bare_row None 1\<lparr>entity_name := Some ''admins'', entity_type := Some ''USER_GROUP''\<rparr>])
   = Some [[([Some ''alice''], [Some ''admins''])]]
   \<and> length [Some ''alice''] = card (set [Some ''alice''])
   \<and> length [Some ''admins''] = card (set [Some ''admins''])"
  using users_groups_distinct [of "[]"
     "[bare_row None 1\<lparr>entity_name := Some ''alice'', entity_type := Some ''USER''\<rparr>,
       bare_row None 1\<lparr>entity_name := Some ''admins'', entity_type := Some ''USER_GROUP''\<rparr>,
       bare_row None 1\<lparr>entity_name := Some ''alice'', entity_type := Some ''USER''\<rparr>,
       bare_row None 1\<lparr>entity_name := Some ''admins'', entity_type := Some ''USER_GROUP''\<rparr>]"]
  by (simp add: eval_defs)

lemma find_filter: "find P xs = Some x \<Longrightarrow> \<exists>rest. filter P xs = x # rest"
  by (induction xs) (auto split: if_splits)

lemma dict_get_process_row_other:
  "g \<noteq> connection_group_id r \<Longrightarrow> dict_get (process_row grps r) g = dict_get grps g"
  by (simp add: process_row_def Let_def dict_get_modify dict_get_append split: option.splits)

lemma group_name_process_row:
  "map_option group_name (dict_get (process_row grps r) g) =
     (case dict_get grps g of
        Some grp \<Rightarrow> Some (group_name grp)
      | None \<Rightarrow> if g = connection_group_id r
                then Some (or_default (row_group_name r) ''ROOT'') else None)"
proof (cases "g = connection_group_id r")
  case False
  then show ?thesis
    by (simp add: dict_get_process_row_other split: option.splits)
next
  case True
  show ?thesis
  proof (cases "dict_get grps g")
    case None
    then have "g \<notin> set (map fst grps)" by (simp add: dict_get_None)
    with None True show ?thesis
      by (simp add: process_row_def Let_def dict_get_modify dict_get_append new_group_def)
  next
    case (Some grp)
    then have "g \<in> set (map fst grps)"
      using dict_get_None [of grps g] by auto
    with Some True show ?thesis
      by (simp add: process_row_def Let_def dict_get_modify)
  qed
qed

lemma group_name_aggregate:
  "map_option group_name (dict_get (aggregate rows) g) =
     map_option (\<lambda>r. or_default (row_group_name r) ''ROOT'')
       (find (\<lambda>r. connection_group_id r = g) rows)"
proof (induction rows rule: rev_induct)
  case Nil
  show ?case by (simp add: aggregate_def)
next
  case (snoc r rows)
  show ?case
    using snoc
    by (cases "dict_get (aggregate rows) g";
        cases "find (\<lambda>r. connection_group_id r = g) rows")
      (auto simp: aggregate_snoc group_name_process_row find_append)
qed

lemma str_int_42: "str_int 42 = ''42''"
  by code_simp

section \<open>Defaults\<close>

text \<open>
  Claim C6 (default substitution). Let \<open>r0\<close> be the first row that carries connection
  \<open>c\<close> in group \<open>g\<close>, and \<open>r1\<close> the first row that carries group \<open>g\<close>. The output has the
  group and in it the connection; a null (or empty) connection name in \<open>r0\<close> gives the
  name "Unnamed Connection " followed by the decimal \<open>c\<close>, a null (or empty) protocol
  in \<open>r0\<close> gives "ssh", a null (or empty) group name in \<open>r1\<close> gives "ROOT", and any
  other value is kept. The example has connection 42 and later rows that do carry names.
\<close>

theorem default_substitution:
  assumes "find (\<lambda>r. connection_group_id r = g \<and> row_connection_id r = c) rows = Some r0"
    and "find (\<lambda>r. connection_group_id r = g) rows = Some r1"
  shows "\<exists>grp x. dict_get (aggregate rows) g = Some grp
     \<and> find (\<lambda>x. connection_id x = c) (connections grp) = Some x
     \<and> name x = (case row_name r0 of
                   None \<Rightarrow> ''Unnamed Connection '' @ str_int c
                 | Some s \<Rightarrow> if s = [] then ''Unnamed Connection '' @ str_int c else s)
     \<and> protocol x = (case row_protocol r0 of
                   None \<Rightarrow> ''ssh''
                 | Some s \<Rightarrow> if s = [] then ''ssh'' else s)
     \<and> group_name grp = (case row_group_name r1 of
                   None \<Rightarrow> ''ROOT''
                 | Some s \<Rightarrow> if s = [] then ''ROOT'' else s)"
proof -
  from find_filter [OF assms(1)] obtain rest where rows_of: "rows_of g c rows = r0 # rest"
    unfolding rows_of_def by auto
  from assms(1) have c: "row_connection_id r0 = c"
    by (auto dest: find_Some_iff [THEN iffD1])
  define x where "x = fold apply_row (r0 # rest) (new_connection r0)"
  have lookup: "lookup_connection (aggregate rows) g c = Some x"
    by (simp add: lookup_aggregate rows_of connection_of_rows_def x_def)
  have "map_option group_name (dict_get (aggregate rows) g) =
      Some (or_default (row_group_name r1) ''ROOT'')"
    by (simp add: group_name_aggregate assms(2))
  then obtain grp where grp: "dict_get (aggregate rows) g = Some grp"
    and gname: "group_name grp = or_default (row_group_name r1) ''ROOT''"
    by auto
  have found: "find (\<lambda>x. connection_id x = c) (connections grp) = Some x"
    using lookup grp by (simp add: lookup_connection_def group_connections_def)
  have "name x = name (new_connection r0) \<and> protocol x = protocol (new_connection r0)"
    unfolding x_def
    by (rule fold_apply_row_invariant) (simp_all add: name_apply_row protocol_apply_row)
  then have "name x = or_default (row_name r0) (''Unnamed Connection '' @ str_int c)"
    and "protocol x = or_default (row_protocol r0) ''ssh''"
    by (simp_all add: new_connection_def c)
  with grp found gname show ?thesis
    by (auto split: option.splits)
qed

theorem default_substitution_witness:
  "find (\<lambda>r. connection_group_id r = None \<and> row_connection_id r = 42)
     [bare_row None 42, bare_row None 42\<lparr>row_name := Some ''db'', row_group_name := Some ''lab''\<rparr>]
     = Some (bare_row None 42)
   \<and> find (\<lambda>r. connection_group_id r = None)
     [bare_row None 42, bare_row None 42\<lparr>row_name := Some ''db'', row_group_name := Some ''lab''\<rparr>]
     = Some (bare_row None 42)
   \<and> map (\<lambda>grp. (group_name grp, map (\<lambda>x. (connection_id x, name x, protocol x)) (connections grp)))
       (map snd (aggregate
         [bare_row None 42, bare_row None 42\<lparr>row_name := Some ''db'', row_group_name := Some ''lab''\<rparr>]))
     = [(''ROOT'', [(42, ''Unnamed Connection 42'', ''ssh'')])]"
  using default_substitution [of None 42
      "[bare_row None 42, bare_row None 42\<lparr>row_name := Some ''db'', row_group_name := Some ''lab''\<rparr>]"
      "bare_row None 42" "bare_row None 42"]
  by (simp add: eval_defs str_int_42)

section \<open>Empty strings\<close>

lemma blank_fields:
  "row_connection_id (blank_to_null r) = row_connection_id r"
  "connection_group_id (blank_to_null r) = connection_group_id r"
  "parameter_value (blank_to_null r) = parameter_value r"
  "attribute_value (blank_to_null r) = attribute_value r"
  "entity_name (blank_to_null r) = entity_name r"
  "entity_type (blank_to_null r) = entity_type r"
  by (simp_all add: blank_to_null_def)

lemma blank_or_default:
  "or_default (row_name (blank_to_null r)) d = or_default (row_name r) d"
  "or_default (row_protocol (blank_to_null r)) d = or_default (row_protocol r) d"
  "or_default (row_group_name (blank_to_null r)) d = or_default (row_group_name r) d"
  by (simp_all add: blank_to_null_def)

lemma new_group_blank: "new_group (blank_to_null r) = new_group r"
  by (simp add: new_group_def blank_or_default)

lemma new_connection_blank: "new_connection (blank_to_null r) = new_connection r"
  by (simp add: new_connection_def blank_or_default blank_fields)

lemma blank_parameter_name:
  "parameter_name (blank_to_null r) = (if parameter_name r = Some [] then None else parameter_name r)"
  "attribute_name (blank_to_null r) = (if attribute_name r = Some [] then None else attribute_name r)"
  by (simp_all add: blank_to_null_def)

lemma add_parameter_blank: "add_parameter (blank_to_null r) c = add_parameter r c"
  by (cases "parameter_name r")
    (simp_all add: add_parameter_def blank_parameter_name blank_fields)

lemma add_attribute_blank: "add_attribute (blank_to_null r) c = add_attribute r c"
  by (cases "attribute_name r")
    (simp_all add: add_attribute_def blank_parameter_name blank_fields)

lemma add_user_blank: "add_user (blank_to_null r) c = add_user r c"
  by (simp add: add_user_def blank_fields)

lemma add_group_blank: "add_group (blank_to_null r) c = add_group r c"
  by (simp add: add_group_def blank_fields)

lemma apply_row_blank: "apply_row (blank_to_null r) = apply_row r"
  by (rule ext)
    (simp add: apply_row_def add_parameter_blank add_attribute_blank add_user_blank
      add_group_blank)

lemma upsert_connection_blank: "upsert_connection (blank_to_null r) = upsert_connection r"
  by (rule ext)
    (simp add: upsert_connection_def Let_def new_connection_blank apply_row_blank blank_fields
      cong: option.case_cong)

lemma process_row_blank: "process_row grps (blank_to_null r) = process_row grps r"
  by (simp add: process_row_def Let_def new_group_blank upsert_connection_blank blank_fields)

lemma aggregate_rows_blank:
  "aggregate_rows grps (map blank_to_null rows) = aggregate_rows grps rows"
  by (induction rows arbitrary: grps) (simp_all add: process_row_blank)

text \<open>
  Claim C10. Where the loop tests a column for absence, the empty string counts as
  absent: an empty connection name, protocol or group name gets the fallback
  ("Unnamed Connection " and the identifier, "ssh", "ROOT"), a row with an empty
  parameter name or attribute name leaves that mapping as it was, and replacing the
  empty strings of these five columns by NULL changes neither what a row does to the
  dictionary nor the document written.
\<close>

theorem empty_string_as_null:
  "name (new_connection (r\<lparr>row_name := Some []\<rparr>)) =
     ''Unnamed Connection '' @ str_int (row_connection_id r)
   \<and> protocol (new_connection (r\<lparr>row_protocol := Some []\<rparr>)) = ''ssh''
   \<and> group_name (new_group (r\<lparr>row_group_name := Some []\<rparr>)) = ''ROOT''
   \<and> add_parameter (r\<lparr>parameter_name := Some []\<rparr>) x = x
   \<and> add_attribute (r\<lparr>attribute_name := Some []\<rparr>) x = x
   \<and> process_row grps (blank_to_null r) = process_row grps r
   \<and> export_to_json enum_fields (map blank_to_null rows) = export_to_json enum_fields rows"
proof (intro conjI)
  show "name (new_connection (r\<lparr>row_name := Some []\<rparr>)) =
     ''Unnamed Connection '' @ str_int (row_connection_id r)"
    by (simp add: new_connection_def)
  show "protocol (new_connection (r\<lparr>row_protocol := Some []\<rparr>)) = ''ssh''"
    by (simp add: new_connection_def)
  show "group_name (new_group (r\<lparr>row_group_name := Some []\<rparr>)) = ''ROOT''"
    by (simp add: new_group_def)
  show "add_parameter (r\<lparr>parameter_name := Some []\<rparr>) x = x"
    by (simp add: add_parameter_def)
  show "add_attribute (r\<lparr>attribute_name := Some []\<rparr>) x = x"
    by (simp add: add_attribute_def)
  show "process_row grps (blank_to_null r) = process_row grps r"
    by (rule process_row_blank)
  show "export_to_json enum_fields (map blank_to_null rows) = export_to_json enum_fields rows"
    by (simp add: export_to_json_def aggregate_def aggregate_rows_blank)
qed

section \<open>Permission entities\<close>

lemma users_of_process_row:
  "users_of (process_row grps r) (connection_group_id r) (row_connection_id r) =
     (if entity_type r = Some ''USER''
         \<and> entity_name r \<notin> set (users_of grps (connection_group_id r) (row_connection_id r))
      then users_of grps (connection_group_id r) (row_connection_id r) @ [entity_name r]
      else users_of grps (connection_group_id r) (row_connection_id r))"
proof (cases "lookup_connection grps (connection_group_id r) (row_connection_id r)")
  case None
  then show ?thesis
    by (simp add: users_of_def lookup_process_row users_apply_row new_connection_def)
next
  case (Some x)
  then show ?thesis
    by (simp add: users_of_def lookup_process_row users_apply_row)
qed

lemma groups_of_process_row:
  "groups_of (process_row grps r) (connection_group_id r) (row_connection_id r) =
     (if entity_type r = Some ''USER_GROUP''
         \<and> entity_name r \<notin> set (groups_of grps (connection_group_id r) (row_connection_id r))
      then groups_of grps (connection_group_id r) (row_connection_id r) @ [entity_name r]
      else groups_of grps (connection_group_id r) (row_connection_id r))"
proof (cases "lookup_connection grps (connection_group_id r) (row_connection_id r)")
  case None
  then show ?thesis
    by (simp add: groups_of_def lookup_process_row groups_apply_row new_connection_def)
next
  case (Some x)
  then show ?thesis
    by (simp add: groups_of_def lookup_process_row groups_apply_row)
qed

text \<open>
  Claim C4 says that a row with a null entity name never adds an entry. Lines 141 and
  145 test the entity type and the membership only: a row of type USER with a null
  name adds the null to \<open>users\<close>.
\<close>

theorem null_entity_counterexample:
  "entity_name (bare_row None 1\<lparr>entity_type := Some ''USER''\<rparr>) = None
   \<and> users_of [] None 1 = []
   \<and> users_of (process_row [] (bare_row None 1\<lparr>entity_type := Some ''USER''\<rparr>)) None 1 = [None]"
proof (intro conjI)
  show "entity_name (bare_row None 1\<lparr>entity_type := Some ''USER''\<rparr>) = None"
    by (simp add: bare_row_def)
  show "users_of [] None 1 = []"
    by (simp add: users_of_def lookup_connection_def group_connections_def)
  have "users_of (process_row [] (bare_row None 1\<lparr>entity_type := Some ''USER''\<rparr>))
      (connection_group_id (bare_row None 1\<lparr>entity_type := Some ''USER''\<rparr>))
      (row_connection_id (bare_row None 1\<lparr>entity_type := Some ''USER''\<rparr>)) = [None]"
    unfolding users_of_process_row
    by (simp add: users_of_def lookup_connection_def group_connections_def bare_row_def)
  then show "users_of (process_row [] (bare_row None 1\<lparr>entity_type := Some ''USER''\<rparr>)) None 1
      = [None]"
    by (simp add: bare_row_def)
qed

text \<open>
  Claim C4 for every row but those: unless the row has a null entity name together
  with the type USER or USER_GROUP, its entity name is appended to the \<open>users\<close> list of
  its connection exactly when the type is USER, the name is not null and the name is
  not yet in the list, and to the \<open>groups\<close> list exactly when the type is USER_GROUP,
  the name is not null and the name is not yet in the list; otherwise the list stays
  as it was. In particular a row with null entity name and null entity type, as the
  LEFT JOIN gives for a connection without permissions, adds nothing.
\<close>

theorem entity_appended:
  assumes "entity_name r \<noteq> None
     \<or> (entity_type r \<noteq> Some ''USER'' \<and> entity_type r \<noteq> Some ''USER_GROUP'')"
  shows "users_of (process_row grps r) (connection_group_id r) (row_connection_id r) =
     (if entity_type r = Some ''USER'' \<and> entity_name r \<noteq> None
         \<and> entity_name r \<notin> set (users_of grps (connection_group_id r) (row_connection_id r))
      then users_of grps (connection_group_id r) (row_connection_id r) @ [entity_name r]
      else users_of grps (connection_group_id r) (row_connection_id r))
   \<and> groups_of (process_row grps r) (connection_group_id r) (row_connection_id r) =
     (if entity_type r = Some ''USER_GROUP'' \<and> entity_name r \<noteq> None
         \<and> entity_name r \<notin> set (groups_of grps (connection_group_id r) (row_connection_id r))
      then groups_of grps (connection_group_id r) (row_connection_id r) @ [entity_name r]
      else groups_of grps (connection_group_id r) (row_connection_id r))"
proof (cases "entity_name r = None")
  case True
  with assms have "entity_type r \<noteq> Some ''USER''" and "entity_type r \<noteq> Some ''USER_GROUP''"
    by simp_all
  then show ?thesis
    unfolding users_of_process_row groups_of_process_row by simp
next
  case False
  then show ?thesis
    unfolding users_of_process_row groups_of_process_row by simp
qed

theorem entity_appended_witness:
  "entity_name (bare_row None 1\<lparr>entity_name := Some ''alice'', entity_type := Some ''USER''\<rparr>) \<noteq> None
   \<and> users_of (process_row [] (bare_row None 1\<lparr>entity_name := Some ''alice'', entity_type := Some ''USER''\<rparr>))
       None 1 = [Some ''alice'']
   \<and> groups_of (process_row [] (bare_row None 1\<lparr>entity_name := Some ''alice'', entity_type := Some ''USER''\<rparr>))
       None 1 = []"
proof -
  let ?r = "bare_row None 1\<lparr>entity_name := Some ''alice'', entity_type := Some ''USER''\<rparr>"
  have h: "entity_name ?r \<noteq> None
     \<or> (entity_type ?r \<noteq> Some ''USER'' \<and> entity_type ?r \<noteq> Some ''USER_GROUP'')"
    by (simp add: bare_row_def)
  have g: "connection_group_id ?r = None" and c: "row_connection_id ?r = 1"
    and t: "entity_type ?r = Some ''USER''" and n: "entity_name ?r = Some ''alice''"
    by (simp_all add: bare_row_def)
  have u: "users_of [] None 1 = []" and gr: "groups_of [] None 1 = []"
    by (simp_all add: users_of_def groups_of_def lookup_connection_def group_connections_def)
  show ?thesis
    using entity_appended [OF h, of "[]"] unfolding g c t n u gr by simp
qed

section \<open>Parsing an enum declaration\<close>

lemma join_quoted_shape:
  "lits \<noteq> [] \<Longrightarrow> \<exists>m. join_quoted lits = CHR 0x27 # m @ [CHR 0x27]"
proof (induction lits rule: join_quoted.induct)
  case 1
  then show ?case by simp
next
  case (2 l)
  show ?case by (simp add: quote_def)
next
  case (3 l l' ls)
  then obtain m where "join_quoted (l' # ls) = CHR 0x27 # m @ [CHR 0x27]" by auto
  then have "join_quoted (l # l' # ls) =
      CHR 0x27 # (l @ [CHR 0x27, CHR '','', CHR 0x27] @ m) @ [CHR 0x27]"
    by (simp add: quote_def)
  then show ?case by blast
qed

lemma strip_enum_declaration:
  assumes "lits \<noteq> []"
  shows "strip ''enum()'' (enum_declaration lits) = join_quoted lits"
proof -
  from join_quoted_shape [OF assms] obtain m
    where m: "join_quoted lits = CHR 0x27 # m @ [CHR 0x27]" by blast
  show ?thesis
    by (simp add: strip_def enum_declaration_def m)
qed

lemma delete_quotes:
  "\<forall>l \<in> set lits. CHR 0x27 \<notin> set l \<Longrightarrow>
   delete_char (CHR 0x27) (join_quoted lits) = join_commas lits"
proof (induction lits rule: join_quoted.induct)
  case 1
  show ?case by (simp add: delete_char_def)
next
  case (2 l)
  then have "filter (\<lambda>x. x \<noteq> CHR 0x27) l = l"
    by (auto simp: filter_id_conv)
  then show ?case by (simp add: delete_char_def quote_def)
next
  case (3 l l' ls)
  then have l: "filter (\<lambda>x. x \<noteq> CHR 0x27) l = l"
    by (auto simp: filter_id_conv)
  from 3 have "delete_char (CHR 0x27) (join_quoted (l' # ls)) = join_commas (l' # ls)"
    by simp
  with l show ?case by (simp add: delete_char_def quote_def)
qed

lemma split_no_separator: "c \<notin> set l \<Longrightarrow> split c l = [l]"
  by (induction l) auto

lemma split_at_separator: "c \<notin> set l \<Longrightarrow> split c (l @ c # rest) = l # split c rest"
  by (induction l) auto

lemma split_join_commas:
  "lits \<noteq> [] \<Longrightarrow> \<forall>l \<in> set lits. CHR '','' \<notin> set l \<Longrightarrow>
   split CHR '','' (join_commas lits) = lits"
proof (induction lits rule: join_commas.induct)
  case 1
  then show ?case by simp
next
  case (2 l)
  then show ?case by (simp add: split_no_separator)
next
  case (3 l l' ls)
  then show ?case by (simp add: split_at_separator)
qed

text \<open>
  Claim C8 (enum parsing). For a declaration \<open>enum('a','b',...)\<close> with at least one
  literal, none of which contains a quote or a comma, the extractor returns the
  literals in declaration order, without the wrapper and the quotes, and stores them
  under the column name. The example is \<open>enum('ssh','vnc','rdp')\<close>.
\<close>

theorem enum_parsing:
  assumes "lits \<noteq> []"
    and "\<forall>l \<in> set lits. CHR 0x27 \<notin> set l \<and> CHR '','' \<notin> set l"
  shows "parse_enum (enum_declaration lits) = lits
    \<and> fetch_dropdown_options [(column_name, enum_declaration lits)] = [(column_name, lits)]"
proof -
  have "parse_enum (enum_declaration lits) = lits"
    using assms
    by (simp add: parse_enum_def strip_enum_declaration delete_quotes split_join_commas)
  then show ?thesis
    by (simp add: fetch_dropdown_options_def)
qed

theorem enum_parsing_witness:
  "[''ssh'', ''vnc'', ''rdp''] \<noteq> []
   \<and> enum_declaration [''ssh'', ''vnc'', ''rdp''] = ''enum('ssh','vnc','rdp')''
   \<and> parse_enum ''enum('ssh','vnc','rdp')'' = [''ssh'', ''vnc'', ''rdp'']
   \<and> fetch_dropdown_options [(''protocol'', ''enum('ssh','vnc','rdp')'')] =
       [(''protocol'', [''ssh'', ''vnc'', ''rdp''])]"
proof -
  have h1: "[''ssh'', ''vnc'', ''rdp''] \<noteq> []" by simp
  have h2: "\<forall>l \<in> set [''ssh'', ''vnc'', ''rdp'']. CHR 0x27 \<notin> set l \<and> CHR '','' \<notin> set l"
    by simp
  have d: "enum_declaration [''ssh'', ''vnc'', ''rdp''] = ''enum('ssh','vnc','rdp')''"
    by (simp add: enum_declaration_def quote_def)
  show ?thesis
    using enum_parsing [OF h1 h2, of "''protocol''"] unfolding d by simp
qed

section \<open>Types of the leaf values\<close>

lemma set_dict_set: "set (dict_set k v d) \<subseteq> insert (k, v) (set d)"
  by (induction d) (auto split: if_splits)

lemma no_null_dict_set:
  "v \<noteq> None \<Longrightarrow> None \<notin> snd ` set d \<Longrightarrow> None \<notin> snd ` set (dict_set k v d)"
  using set_dict_set [of k v d] by force

lemma parameters_apply_row:
  "parameters (apply_row r c) =
     (case parameter_name r of
        None \<Rightarrow> parameters c
      | Some n \<Rightarrow> if n = [] then parameters c
                  else dict_set n (parameter_value r) (parameters c))"
  by (simp add: apply_row_def add_parameter_def add_attribute_def add_user_def add_group_def
      split: option.splits)

lemma attributes_apply_row:
  "attributes (apply_row r c) =
     (case attribute_name r of
        None \<Rightarrow> attributes c
      | Some n \<Rightarrow> if n = [] then attributes c
                  else dict_set n (attribute_value r) (attributes c))"
  by (simp add: apply_row_def add_parameter_def add_attribute_def add_user_def add_group_def
      split: option.splits)

lemma no_null_apply_row:
  assumes "values_present r" and "no_null c"
  shows "no_null (apply_row r c)"
proof -
  have "None \<notin> snd ` set (parameters (apply_row r c))"
  proof (cases "parameter_name r")
    case None
    with assms(2) show ?thesis by (simp add: parameters_apply_row no_null_def)
  next
    case (Some n)
    show ?thesis
    proof (cases "n = []")
      case True
      with Some assms(2) show ?thesis by (simp add: parameters_apply_row no_null_def)
    next
      case False
      with Some assms(1) have "parameter_value r \<noteq> None"
        by (simp add: values_present_def)
      with assms(2) have "None \<notin> snd ` set (dict_set n (parameter_value r) (parameters c))"
        by (intro no_null_dict_set) (simp_all add: no_null_def)
      with Some False show ?thesis by (simp add: parameters_apply_row)
    qed
  qed
  moreover have "None \<notin> snd ` set (attributes (apply_row r c))"
  proof (cases "attribute_name r")
    case None
    with assms(2) show ?thesis by (simp add: attributes_apply_row no_null_def)
  next
    case (Some n)
    show ?thesis
    proof (cases "n = []")
      case True
      with Some assms(2) show ?thesis by (simp add: attributes_apply_row no_null_def)
    next
      case False
      with Some assms(1) have "attribute_value r \<noteq> None"
        by (simp add: values_present_def)
      with assms(2) have "None \<notin> snd ` set (dict_set n (attribute_value r) (attributes c))"
        by (intro no_null_dict_set) (simp_all add: no_null_def)
      with Some False show ?thesis by (simp add: attributes_apply_row)
    qed
  qed
  moreover have "None \<notin> set (users (apply_row r c))"
    using assms by (auto simp: users_apply_row values_present_def no_null_def)
  moreover have "None \<notin> set (groups (apply_row r c))"
    using assms by (auto simp: groups_apply_row values_present_def no_null_def)
  ultimately show ?thesis by (simp add: no_null_def)
qed

lemma is_string_nullable: "is_string (nullable_json v) \<longleftrightarrow> v \<noteq> None"
  by (cases v) simp_all

lemma no_null_new_connection: "no_null (new_connection r)"
  by (simp add: no_null_def new_connection_def)

lemma no_null_aggregate:
  assumes "\<forall>r \<in> set rows. values_present r"
    and "(g, grp) \<in> set (aggregate rows)" and "x \<in> set (connections grp)"
  shows "no_null x"
proof -
  obtain r0 rest where rs: "rows_of g (connection_id x) rows = r0 # rest"
    and x: "x = fold apply_row (r0 # rest) (new_connection r0)"
    using object_in_aggregate [OF assms(2,3)] by blast
  have sub: "set (r0 # rest) \<subseteq> set rows"
    unfolding rs [symmetric] rows_of_def by auto
  show ?thesis
    unfolding x
  proof (rule fold_apply_row_invariant)
    show "no_null (new_connection r0)" by (rule no_null_new_connection)
  next
    fix r and c :: connection
    assume "r \<in> set (r0 # rest)" and "no_null c"
    with sub assms(1) show "no_null (apply_row r c)"
      by (intro no_null_apply_row) auto
  qed
qed

lemma strings_no_null: "None \<notin> set vs \<Longrightarrow> list_all is_string (map nullable_json vs)"
proof (induction vs)
  case Nil
  show ?case by simp
next
  case (Cons a vs)
  then show ?case by (cases a) simp_all
qed

lemma string_values_no_null:
  "None \<notin> snd ` set ps \<Longrightarrow>
   list_all is_string (map snd (map (\<lambda>(k, v). (k, nullable_json v)) ps))"
proof (induction ps)
  case Nil
  show ?case by simp
next
  case (Cons p ps)
  obtain k v where p: "p = (k, v)" by (cases p)
  with Cons show ?case by (cases v) auto
qed

text \<open>
  Claim C9 says that every leaf other than \<open>connection_id\<close> is a string. The row's
  values are stored as they are: a row with a parameter name and a null parameter
  value, of entity type USER with a null entity name, gives the parameter value null
  and the user null.
\<close>

theorem leaf_types_counterexample:
  "export_to_json []
     [bare_row None 1\<lparr>row_name := Some ''db'', parameter_name := Some ''port'',
        entity_type := Some ''USER''\<rparr>]
   = Some \<lparr>export_connections =
       [\<lparr>group_name = ''ROOT'', connections =
          [\<lparr>connection_id = 1, name = ''db'', protocol = ''ssh'',
            parameters = [(''port'', None)], attributes = [],
            users = [None], groups = []\<rparr>]\<rparr>],
      dropdown_options = []\<rparr>
   \<and> connection_json
        \<lparr>connection_id = 1, name = ''db'', protocol = ''ssh'',
         parameters = [(''port'', None)], attributes = [],
         users = [None], groups = []\<rparr>
     = JObject
        [(''connection_id'', JInt 1),
         (''name'', JString ''db''),
         (''protocol'', JString ''ssh''),
         (''parameters'', JObject [(''port'', JNull)]),
         (''attributes'', JObject []),
         (''users'', JArray [JNull]),
         (''groups'', JArray [])]"
  by (simp add: eval_defs connection_json_def)

text \<open>
  Claim C9 as the code has it. In every document written, every connection object has
  exactly the fields \<open>connection_id\<close>, \<open>name\<close>, \<open>protocol\<close>, \<open>parameters\<close>, \<open>attributes\<close>,
  \<open>users\<close> and \<open>groups\<close>, whatever the rows held; \<open>connection_id\<close> is an integer, \<open>name\<close> and
  \<open>protocol\<close> are strings, \<open>parameters\<close> and \<open>attributes\<close> are objects, \<open>users\<close> and \<open>groups\<close>
  are arrays. If every row has its stored values present (a value beside a non-empty
  parameter or attribute name, a name beside the entity types USER and USER_GROUP),
  every parameter value, attribute value, user name and group name is a string.
\<close>

theorem leaf_types:
  assumes "export_to_json enum_fields rows = Some d"
  shows "\<forall>grp \<in> set (export_connections d). \<forall>x \<in> set (connections grp).
     \<exists>ps as us gs.
       connection_json x = JObject
         [(''connection_id'', JInt (connection_id x)),
          (''name'', JString (name x)),
          (''protocol'', JString (protocol x)),
          (''parameters'', JObject ps),
          (''attributes'', JObject as),
          (''users'', JArray us),
          (''groups'', JArray gs)]
     \<and> ((\<forall>r \<in> set rows. values_present r) \<longrightarrow>
          list_all is_string (map snd ps) \<and> list_all is_string (map snd as)
          \<and> list_all is_string us \<and> list_all is_string gs)"
proof (intro ballI)
  fix grp x
  assume grp: "grp \<in> set (export_connections d)" and x: "x \<in> set (connections grp)"
  from assms grp obtain g where g: "(g, grp) \<in> set (aggregate rows)"
    by (auto simp: export_to_json_def split: if_splits)
  let ?ps = "map (\<lambda>(k, v). (k, nullable_json v)) (parameters x)"
  let ?as = "map (\<lambda>(k, v). (k, nullable_json v)) (attributes x)"
  let ?us = "map nullable_json (users x)"
  let ?gs = "map nullable_json (groups x)"
  have shape: "connection_json x = JObject
         [(''connection_id'', JInt (connection_id x)),
          (''name'', JString (name x)),
          (''protocol'', JString (protocol x)),
          (''parameters'', JObject ?ps),
          (''attributes'', JObject ?as),
          (''users'', JArray ?us),
          (''groups'', JArray ?gs)]"
    unfolding connection_json_def by (rule refl)
  have strings: "list_all is_string (map snd ?ps) \<and> list_all is_string (map snd ?as)
      \<and> list_all is_string ?us \<and> list_all is_string ?gs"
    if "\<forall>r \<in> set rows. values_present r"
  proof -
    from that g x have "no_null x" by (rule no_null_aggregate)
    then show ?thesis
      unfolding no_null_def
      by (intro conjI string_values_no_null strings_no_null) simp_all
  qed
  from shape strings show "\<exists>ps as us gs.
       connection_json x = JObject
         [(''connection_id'', JInt (connection_id x)),
          (''name'', JString (name x)),
          (''protocol'', JString (protocol x)),
          (''parameters'', JObject ps),
          (''attributes'', JObject as),
          (''users'', JArray us),
          (''groups'', JArray gs)]
     \<and> ((\<forall>r \<in> set rows. values_present r) \<longrightarrow>
          list_all is_string (map snd ps) \<and> list_all is_string (map snd as)
          \<and> list_all is_string us \<and> list_all is_string gs)"
    by blast
qed

theorem leaf_types_witness:
  "map_option
     (\<lambda>d. map (\<lambda>grp. map connection_json (connections grp)) (export_connections d))
     (export_to_json []
       [bare_row None 1\<lparr>row_name := Some ''db'', parameter_name := Some ''hostname'',
          parameter_value := Some ''10.0.0.1'', entity_name := Some ''alice'',
          entity_type := Some ''USER''\<rparr>])
   = Some [[JObject
       [(''connection_id'', JInt 1),
        (''name'', JString ''db''),
        (''protocol'', JString ''ssh''),
        (''parameters'', JObject [(''hostname'', JString ''10.0.0.1'')]),
        (''attributes'', JObject []),
        (''users'', JArray [JString ''alice'']),
        (''groups'', JArray [])]]]
   \<and> list_all is_string [JString ''10.0.0.1''] \<and> list_all is_string [JString ''alice'']"
proof -
  let ?rows = "[bare_row None 1\<lparr>row_name := Some ''db'', parameter_name := Some ''hostname'',
          parameter_value := Some ''10.0.0.1'', entity_name := Some ''alice'',
          entity_type := Some ''USER''\<rparr>]"
  let ?d = "\<lparr>export_connections =
      [\<lparr>group_name = ''ROOT'', connections =
          [\<lparr>connection_id = 1, name = ''db'', protocol = ''ssh'',
            parameters = [(''hostname'', Some ''10.0.0.1'')], attributes = [],
            users = [Some ''alice''], groups = []\<rparr>]\<rparr>],
      dropdown_options = []\<rparr>"
  have e: "export_to_json [] ?rows = Some ?d"
    by (simp add: eval_defs)
  have vp: "\<forall>r \<in> set ?rows. values_present r"
    by (simp add: values_present_def bare_row_def)
  from leaf_types [OF e] vp
  have "\<exists>ps as us gs.
       connection_json \<lparr>connection_id = 1, name = ''db'', protocol = ''ssh'',
            parameters = [(''hostname'', Some ''10.0.0.1'')], attributes = [],
            users = [Some ''alice''], groups = []\<rparr> = JObject
         [(''connection_id'', JInt 1),
          (''name'', JString ''db''),
          (''protocol'', JString ''ssh''),
          (''parameters'', JObject ps),
          (''attributes'', JObject as),
          (''users'', JArray us),
          (''groups'', JArray gs)]
     \<and> list_all is_string (map snd ps) \<and> list_all is_string (map snd as)
     \<and> list_all is_string us \<and> list_all is_string gs"
    by simp
  then show ?thesis
    unfolding e by (auto simp: connection_json_def)
qed

end
